theory Spec2Isabelle
  imports Main
begin

section \<open>The CSS selector builder of 05-objects-tasks.js\<close>

text \<open>
  \<^verbatim>\<open>cssSelectorBuilder\<close> is one shared, mutable object. Every method mutates it and
  returns \<^verbatim>\<open>this\<close>, so a method is modelled as a function on the state of the object,
  and a thrown \<^verbatim>\<open>Error\<close> as a result that carries the state the object is left in.
\<close>

subsection \<open>Data\<close>

text \<open>
  The JavaScript values that reach \<^verbatim>\<open>combine\<close>: its arguments are builder objects and
  a combinator string, and a missing argument reads as \<^verbatim>\<open>undefined\<close>.
\<close>

datatype jsval = JUndefined | JNull | JStr string | JObject

text \<open>The two messages of \<^verbatim>\<open>errors\<close>: \<^verbatim>\<open>order\<close> and \<^verbatim>\<open>moreThanOne\<close>.\<close>

datatype error = OrderError | MoreThanOneError

text \<open>
  \<^verbatim>\<open>selectObj\<close>: the fields \<^verbatim>\<open>id\<close> and \<^verbatim>\<open>class\<close> are named \<open>sel_id\<close> and \<open>sel_class\<close>
  here, the others carry the same prefix. All start as the empty string.
\<close>

record select_obj =
  sel_tag :: string
  sel_id :: string
  sel_class :: string
  sel_attr :: string
  sel_pseudoClass :: string
  sel_pseudoElement :: string
  sel_seq :: string
  sel_prevElem :: string

record builder =
  selectObj :: select_obj
  combo :: "string list"
  comboSeparators :: "jsval list"
  firstMode :: bool
  firstId :: bool

datatype result = Returned builder | Thrown error builder

definition emptySelectObj :: select_obj where
  "emptySelectObj = \<lparr>sel_tag = [], sel_id = [], sel_class = [], sel_attr = [],
     sel_pseudoClass = [], sel_pseudoElement = [], sel_seq = [], sel_prevElem = []\<rparr>"

text \<open>The object literal as the module creates it.\<close>

definition cssSelectorBuilder :: builder where
  "cssSelectorBuilder = \<lparr>selectObj = emptySelectObj, combo = [], comboSeparators = [],
     firstMode = True, firstId = False\<rparr>"

text \<open>A string is truthy when it is not empty; \<^verbatim>\<open>undefined\<close> and \<^verbatim>\<open>null\<close> are falsy.\<close>

definition truthy :: "string \<Rightarrow> bool" where
  "truthy s = (s \<noteq> [])"

fun truthyVal :: "jsval \<Rightarrow> bool" where
  "truthyVal JUndefined = False"
| "truthyVal JNull = False"
| "truthyVal (JStr s) = truthy s"
| "truthyVal JObject = True"

text \<open>
  \<^verbatim>\<open>this.prevElem\<close>, read by \<^verbatim>\<open>id\<close>: the builder object itself has no such property
  (only \<^verbatim>\<open>selectObj\<close> has one) and no method ever assigns it, so the read is
  \<^verbatim>\<open>undefined\<close>.
\<close>

definition this_prevElem :: "builder \<Rightarrow> jsval" where
  "this_prevElem b = JUndefined"

text \<open>Reading an array at an index: \<^verbatim>\<open>undefined\<close> out of range.\<close>

definition at_index :: "jsval list \<Rightarrow> nat \<Rightarrow> jsval" where
  "at_index xs i = (if i < length xs then xs ! i else JUndefined)"

subsection \<open>Helper methods\<close>

definition cleanSelector :: "builder \<Rightarrow> builder" where
  "cleanSelector b = b\<lparr>selectObj := emptySelectObj\<rparr>"

definition genSelector :: "builder \<Rightarrow> string \<times> builder" where
  "genSelector b =
     (let result = sel_seq (selectObj b);
          b1 = cleanSelector b
      in (result, b1\<lparr>selectObj := (selectObj b1)\<lparr>sel_prevElem := result\<rparr>\<rparr>))"

definition writeCombo :: "builder \<Rightarrow> builder" where
  "writeCombo b =
     (if truthy (sel_prevElem (selectObj b))
      then b\<lparr>combo := combo b @ [sel_prevElem (selectObj b)],
             selectObj := (selectObj b)\<lparr>sel_prevElem := []\<rparr>\<rparr>
      else b\<lparr>combo := combo b @ [sel_seq (selectObj b)]\<rparr>)"

definition genError :: "error \<Rightarrow> builder \<Rightarrow> result" where
  "genError message b =
     (let b1 = cleanSelector b;
          b2 = b1\<lparr>selectObj := (selectObj b1)\<lparr>sel_prevElem := []\<rparr>\<rparr>
      in Thrown message (b2\<lparr>firstMode := True, firstId := False\<rparr>))"

subsection \<open>The fragment methods\<close>

definition element :: "string \<Rightarrow> builder \<Rightarrow> result" where
  "element t b =
     (let b1 = (if truthy (sel_seq (selectObj b)) \<and> \<not> firstMode b
                then (writeCombo (snd (genSelector b)))\<lparr>firstMode := True\<rparr>
                else b)
      in if firstId b1 then genError OrderError b1
         else if truthy (sel_tag (selectObj b1)) \<and> firstMode b1
           then genError MoreThanOneError b1
         else Returned (b1\<lparr>selectObj := (selectObj b1)\<lparr>sel_tag := t, sel_seq := t\<rparr>\<rparr>))"

definition id_method :: "string \<Rightarrow> builder \<Rightarrow> result" where
  "id_method v b =
     (let b1 = (if truthyVal (this_prevElem b) then writeCombo b else b)
      in if truthy (sel_id (selectObj b1)) then genError MoreThanOneError b1
         else if truthy (sel_class (selectObj b1)) \<or> truthy (sel_pseudoElement (selectObj b1))
           then genError OrderError b1
         else if truthy (sel_tag (selectObj b1))
                 \<and> length (sel_seq (selectObj b1)) > length (sel_tag (selectObj b1))
           then genError OrderError b1
         else
           (let b2 = b1\<lparr>selectObj := (selectObj b1)\<lparr>sel_id := ''#'' @ v\<rparr>\<rparr>;
                b3 = (if sel_seq (selectObj b2) = [] then b2\<lparr>firstId := True\<rparr> else b2);
                b4 = b3\<lparr>selectObj := (selectObj b3)\<lparr>sel_seq := sel_seq (selectObj b3) @ ''#'' @ v\<rparr>\<rparr>
            in Returned (b4\<lparr>firstMode := False\<rparr>)))"

text \<open>\<^verbatim>\<open>class\<close> throws directly, without \<^verbatim>\<open>genError\<close>: the state stays as it is.\<close>

definition class_method :: "string \<Rightarrow> builder \<Rightarrow> result" where
  "class_method v b =
     (if truthy (sel_attr (selectObj b)) then Thrown OrderError b
      else Returned (b\<lparr>selectObj := (selectObj b)\<lparr>sel_class := ''.'' @ v,
                          sel_seq := sel_seq (selectObj b) @ ''.'' @ v\<rparr>,
                        firstMode := False, firstId := False\<rparr>))"

definition attr :: "string \<Rightarrow> builder \<Rightarrow> result" where
  "attr v b =
     (if truthy (sel_pseudoClass (selectObj b)) then genError OrderError b
      else Returned (b\<lparr>selectObj := (selectObj b)\<lparr>sel_attr := ''['' @ v @ '']'',
                          sel_seq := sel_seq (selectObj b) @ ''['' @ v @ '']''\<rparr>,
                        firstMode := False, firstId := False\<rparr>))"

definition pseudoClass :: "string \<Rightarrow> builder \<Rightarrow> result" where
  "pseudoClass v b =
     (if truthy (sel_pseudoElement (selectObj b)) then genError OrderError b
      else Returned (b\<lparr>selectObj := (selectObj b)\<lparr>sel_pseudoClass := '':'' @ v,
                          sel_seq := sel_seq (selectObj b) @ '':'' @ v\<rparr>,
                        firstMode := False, firstId := False\<rparr>))"

definition pseudoElement :: "string \<Rightarrow> builder \<Rightarrow> result" where
  "pseudoElement v b =
     (if truthy (sel_pseudoElement (selectObj b)) then genError MoreThanOneError b
      else Returned (b\<lparr>selectObj := (selectObj b)\<lparr>sel_pseudoElement := ''::'' @ v,
                          sel_seq := sel_seq (selectObj b) @ ''::'' @ v\<rparr>,
                        firstMode := False, firstId := False\<rparr>))"

subsection \<open>combine and stringify\<close>

text \<open>
  \<^verbatim>\<open>combine(...args)\<close> reads \<^verbatim>\<open>args[1]\<close> only. Its arguments were evaluated, and so
  ran on the shared object, before it is entered.
\<close>

definition combine :: "jsval list \<Rightarrow> builder \<Rightarrow> builder" where
  "combine args b =
     (let b1 = (if truthy (sel_seq (selectObj b)) then writeCombo (snd (genSelector b)) else b)
      in b1\<lparr>comboSeparators := comboSeparators b1 @ [at_index args 1]\<rparr>)"

text \<open>
  \<^verbatim>\<open>Array.prototype.join\<close>: \<^verbatim>\<open>undefined\<close> and \<^verbatim>\<open>null\<close> become the empty string, an
  object its \<^verbatim>\<open>toString()\<close>.
\<close>

fun joinStr :: "jsval \<Rightarrow> string" where
  "joinStr JUndefined = []"
| "joinStr JNull = []"
| "joinStr (JStr s) = s"
| "joinStr JObject = ''[object Object]''"

fun join :: "string \<Rightarrow> jsval list \<Rightarrow> string" where
  "join sep [] = []"
| "join sep [x] = joinStr x"
| "join sep (x # y # ys) = joinStr x @ sep @ join sep (y # ys)"

text \<open>The callback of \<^verbatim>\<open>flatMap\<close> in \<^verbatim>\<open>stringify\<close>, on the items with their indices.\<close>

definition flatMapCombo :: "string list \<Rightarrow> jsval list \<Rightarrow> jsval list" where
  "flatMapCombo cmb seps =
     concat (map (\<lambda>(index, item).
                    if index < length cmb - 1 then [JStr item, at_index seps index]
                    else [JStr item])
                 (enumerate 0 cmb))"

definition stringify :: "builder \<Rightarrow> string \<times> builder" where
  "stringify b =
     (if length (combo b) > 0 then
        (let b1 = b\<lparr>comboSeparators := rev (comboSeparators b)\<rparr>;
             result = join '' '' (flatMapCombo (combo b1) (comboSeparators b1))
         in (result, b1\<lparr>comboSeparators := [], combo := [],
                        firstMode := True, firstId := False\<rparr>))
      else
        (let (result, b1) = genSelector b
         in (result, b1\<lparr>selectObj := (selectObj b1)\<lparr>sel_prevElem := []\<rparr>,
                        firstMode := True, firstId := False\<rparr>)))"

subsection \<open>Chains of calls and selector expressions\<close>

text \<open>
  A chain \<^verbatim>\<open>builder.element('a').id('b')...\<close> is the list of its calls; an exception ends
  the chain where it is thrown.
\<close>

datatype call = Element string | Id string | Class string | Attr string
  | PseudoClass string | PseudoElement string

fun invoke :: "call \<Rightarrow> builder \<Rightarrow> result" where
  "invoke (Element v) b = element v b"
| "invoke (Id v) b = id_method v b"
| "invoke (Class v) b = class_method v b"
| "invoke (Attr v) b = attr v b"
| "invoke (PseudoClass v) b = pseudoClass v b"
| "invoke (PseudoElement v) b = pseudoElement v b"

fun chain :: "call list \<Rightarrow> builder \<Rightarrow> result" where
  "chain [] b = Returned b"
| "chain (c # cs) b =
     (case invoke c b of Thrown e b' \<Rightarrow> Thrown e b' | Returned b' \<Rightarrow> chain cs b')"

text \<open>
  An expression as the callers write it, \<^verbatim>\<open>builder.combine(left, combinator, right)\<close>:
  JavaScript evaluates the arguments from left to right on the shared object, then enters
  \<^verbatim>\<open>combine\<close> with the object itself as first and third argument.
\<close>

datatype expr = Chain "call list" | Combine expr jsval expr

fun build :: "expr \<Rightarrow> builder \<Rightarrow> result" where
  "build (Chain cs) b = chain cs b"
| "build (Combine l c r) b =
     (case build l b of
        Thrown e b' \<Rightarrow> Thrown e b'
      | Returned b1 \<Rightarrow>
          (case build r b1 of
             Thrown e b' \<Rightarrow> Thrown e b'
           | Returned b2 \<Rightarrow> Returned (combine [JObject, c, JObject] b2)))"

text \<open>The whole statement \<^verbatim>\<open>expr.stringify()\<close>: the string, or the error, and the state left.\<close>

definition stringifyExpr :: "expr \<Rightarrow> builder \<Rightarrow> (error + string) \<times> builder" where
  "stringifyExpr e b =
     (case build e b of
        Thrown err b' \<Rightarrow> (Inl err, b')
      | Returned b' \<Rightarrow> (Inr (fst (stringify b')), snd (stringify b')))"

text \<open>
  What the specification expects of a call in the output: its value with the prefix of
  its category. The methods above build their text themselves; this is what it is
  compared with.
\<close>

fun fragment :: "call \<Rightarrow> string" where
  "fragment (Element v) = v"
| "fragment (Id v) = ''#'' @ v"
| "fragment (Class v) = ''.'' @ v"
| "fragment (Attr v) = ''['' @ v @ '']''"
| "fragment (PseudoClass v) = '':'' @ v"
| "fragment (PseudoElement v) = ''::'' @ v"

text \<open>
  The order of the categories as the specification and the order message give it, and
  the chains that respect it: element, id, classes, attributes, pseudo-classes,
  pseudo-element, with element, id and pseudo-element at most once.
\<close>

fun category :: "call \<Rightarrow> nat" where
  "category (Element v) = 0"
| "category (Id v) = 1"
| "category (Class v) = 2"
| "category (Attr v) = 3"
| "category (PseudoClass v) = 4"
| "category (PseudoElement v) = 5"

definition validOrder :: "call list \<Rightarrow> bool" where
  "validOrder cs =
     (sorted (map category cs)
      \<and> length (filter (\<lambda>c. category c = 0) cs) \<le> 1
      \<and> length (filter (\<lambda>c. category c = 1) cs) \<le> 1
      \<and> length (filter (\<lambda>c. category c = 5) cs) \<le> 1)"

text \<open>The error a call or chain ended with, if any, and the state it left.\<close>

fun raised :: "result \<Rightarrow> error option" where
  "raised (Returned b) = None"
| "raised (Thrown e b) = Some e"

fun stateOf :: "result \<Rightarrow> builder" where
  "stateOf (Returned b) = b"
| "stateOf (Thrown e b) = b"

text \<open>The shared object after the calls \<open>cs\<close> were made on it as the module created it.\<close>

definition after :: "call list \<Rightarrow> builder" where
  "after cs = stateOf (chain cs cssSelectorBuilder)"

text \<open>The object with nothing under construction, and the given composite lists.\<close>

definition freshWith :: "string list \<Rightarrow> jsval list \<Rightarrow> builder" where
  "freshWith segs seps = cssSelectorBuilder\<lparr>combo := segs, comboSeparators := seps\<rparr>"

text \<open>
  What holds of \<^verbatim>\<open>selectObj\<close> while one simple selector is being built by the calls
  \<open>cs\<close>: the text so far is in \<^verbatim>\<open>seq\<close>, and the field of a category is set only if
  a call of that category was made.
\<close>

definition simple :: "call list \<Rightarrow> builder \<Rightarrow> bool" where
  "simple cs b =
     (sel_seq (selectObj b) = concat (map fragment cs)
      \<and> sel_prevElem (selectObj b) = []
      \<and> (truthy (sel_id (selectObj b)) \<longrightarrow> 1 \<in> category ` set cs)
      \<and> (truthy (sel_class (selectObj b)) \<longrightarrow> 2 \<in> category ` set cs)
      \<and> (truthy (sel_attr (selectObj b)) \<longrightarrow> 3 \<in> category ` set cs)
      \<and> (truthy (sel_pseudoClass (selectObj b)) \<longrightarrow> 4 \<in> category ` set cs)
      \<and> (truthy (sel_pseudoElement (selectObj b)) \<longrightarrow> 5 \<in> category ` set cs))"

text \<open>
  Calls that stay within the simple selector under construction: none of them is
  \<^verbatim>\<open>element\<close>, the one method that can close it and begin the next.
\<close>

fun sameSelector :: "call list \<Rightarrow> bool" where
  "sameSelector [] = True"
| "sameSelector (c # cs) = (category c \<noteq> 0 \<and> sameSelector cs)"

text \<open>
  The states in which \<^verbatim>\<open>element\<close> takes its first branch and then passes both checks:
  some text is there, and the last call was neither \<^verbatim>\<open>element\<close> nor a leading
  \<^verbatim>\<open>id\<close>.
\<close>

definition underway :: "builder \<Rightarrow> bool" where
  "underway b = (truthy (sel_seq (selectObj b)) \<and> \<not> firstMode b \<and> \<not> firstId b)"

text \<open>What a call other than \<^verbatim>\<open>element\<close> that returns leaves as it found it.\<close>

definition keeps :: "builder \<Rightarrow> builder \<Rightarrow> bool" where
  "keeps b b' =
     ((truthy (sel_id (selectObj b)) \<longrightarrow> truthy (sel_id (selectObj b')))
      \<and> (truthy (sel_attr (selectObj b)) \<longrightarrow> truthy (sel_attr (selectObj b')))
      \<and> (truthy (sel_pseudoClass (selectObj b)) \<longrightarrow> truthy (sel_pseudoClass (selectObj b')))
      \<and> (truthy (sel_pseudoElement (selectObj b)) \<longrightarrow> truthy (sel_pseudoElement (selectObj b')))
      \<and> (underway b \<longrightarrow> underway b'))"

text \<open>
  The chains after which the fresh builder is \<open>underway\<close>: a call of class, attribute,
  pseudo-class or pseudo-element was made, or the chain is a non-empty tag and an id.
\<close>

fun finished :: "call list \<Rightarrow> bool" where
  "finished [Element t, Id i] = truthy t"
| "finished cs = list_ex (\<lambda>c. 2 \<le> category c) cs"

section \<open>Properties\<close>

lemmas method_defs = element_def id_method_def class_method_def attr_def pseudoClass_def
  pseudoElement_def genError_def genSelector_def writeCombo_def cleanSelector_def
  truthy_def this_prevElem_def emptySelectObj_def

lemmas stringify_defs = stringifyExpr_def stringify_def combine_def flatMapCombo_def
  at_index_def cssSelectorBuilder_def Let_def

lemmas eval_defs = after_def cssSelectorBuilder_def method_defs Let_def

subsection \<open>The examples of the documentation\<close>

lemma doc_example_id_classes:
  "fst (stringifyExpr (Chain [Id ''main'', Class ''container'', Class ''editable''])
          cssSelectorBuilder) = Inr ''#main.container.editable''"
  by (simp add: stringify_defs method_defs)

lemma doc_example_nested_combine:
  "fst (stringifyExpr
          (Combine (Chain [Element ''div'', Id ''main'', Class ''container'', Class ''draggable''])
             (JStr ''+'')
             (Combine (Chain [Element ''table'', Id ''data''])
                (JStr ''~'')
                (Combine (Chain [Element ''tr'', PseudoClass ''nth-of-type(even)''])
                   (JStr '' '')
                   (Chain [Element ''td'', PseudoClass ''nth-of-type(even)'']))))
          cssSelectorBuilder)
   = Inr ''div#main.container.draggable + table#data ~ tr:nth-of-type(even)   td:nth-of-type(even)''"
  by (simp add: stringify_defs method_defs)

subsection \<open>Chains in the order of the categories\<close>

lemma chain_append:
  "chain (xs @ ys) b =
     (case chain xs b of Thrown e b' \<Rightarrow> Thrown e b' | Returned b' \<Rightarrow> chain ys b')"
  by (induction xs arbitrary: b) (auto split: result.splits)

lemma chain_snoc:
  "chain (cs @ [c]) b =
     (case chain cs b of Thrown e b' \<Rightarrow> Thrown e b' | Returned b' \<Rightarrow> invoke c b')"
  by (simp add: chain_append split: result.splits)

lemma validOrder_snoc:
  assumes "validOrder (cs @ [c])"
  shows "validOrder cs" and "\<forall>x\<in>set cs. category x \<le> category c"
    and "category c \<in> {0, 1, 5} \<Longrightarrow> \<forall>x\<in>set cs. category x \<noteq> category c"
proof -
  from assms show "validOrder cs" and le: "\<forall>x\<in>set cs. category x \<le> category c"
    by (auto simp: validOrder_def sorted_append)
  show "\<forall>x\<in>set cs. category x \<noteq> category c" if k: "category c \<in> {0, 1, 5}"
  proof
    fix x assume x: "x \<in> set cs"
    show "category x \<noteq> category c"
    proof
      assume eq: "category x = category c"
      then have "filter (\<lambda>y. category y = category c) cs \<noteq> []"
        using x by (auto simp: filter_empty_conv)
      then have "length (filter (\<lambda>y. category y = category c) cs) \<ge> 1"
        by (cases "filter (\<lambda>y. category y = category c) cs") auto
      then have "length (filter (\<lambda>y. category y = category c) (cs @ [c])) \<ge> 2"
        by simp
      with assms k show False
        by (auto simp: validOrder_def)
    qed
  qed
qed

lemma only_elements_before_id:
  assumes "validOrder (cs @ [Id v])"
  shows "cs = [] \<or> (\<exists>t. cs = [Element t])"
proof -
  have le: "\<forall>x\<in>set cs. category x \<le> 1" and ne: "\<forall>x\<in>set cs. category x \<noteq> 1"
    using validOrder_snoc(2,3)[OF assms] by auto
  then have all0: "\<forall>x\<in>set cs. category x = 0"
    by (metis le_neq_implies_less less_one)
  then have "filter (\<lambda>c. category c = 0) cs = cs" by simp
  moreover have "length (filter (\<lambda>c. category c = 0) cs) \<le> 1"
    using validOrder_snoc(1)[OF assms] by (simp add: validOrder_def)
  ultimately have short: "length cs \<le> 1" by simp
  show ?thesis
  proof (cases cs)
    case Nil then show ?thesis by simp
  next
    case (Cons x xs)
    with short have "xs = []" by simp
    moreover from all0 Cons have "category x = 0" by simp
    then obtain t where "x = Element t" by (cases x) auto
    ultimately show ?thesis using Cons by simp
  qed
qed

lemma nothing_before_element:
  assumes "validOrder (cs @ [Element v])"
  shows "cs = []"
proof (cases cs)
  case Nil then show ?thesis .
next
  case (Cons x xs)
  then have "category x \<le> 0" "category x \<noteq> 0"
    using validOrder_snoc(2,3)[OF assms] by auto
  then show ?thesis by simp
qed

lemma fresh_is_freshWith: "cssSelectorBuilder = freshWith [] []"
  by (simp add: freshWith_def cssSelectorBuilder_def)

text \<open>
  No check of any method fires along a chain in the order of the categories; the object
  stays in a state of one simple selector and the composite lists stay as they were.
\<close>

lemma valid_chain_from:
  "validOrder cs \<Longrightarrow>
     \<exists>b. chain cs (freshWith segs seps) = Returned b \<and> simple cs b
        \<and> combo b = segs \<and> comboSeparators b = seps"
proof (induction cs rule: rev_induct)
  case Nil
  then show ?case
    by (simp add: simple_def freshWith_def cssSelectorBuilder_def emptySelectObj_def truthy_def)
next
  case (snoc c cs)
  from snoc.prems have v: "validOrder cs" and le: "\<forall>x\<in>set cs. category x \<le> category c"
    by (rule validOrder_snoc)+
  from snoc.IH[OF v] obtain b where b: "chain cs (freshWith segs seps) = Returned b"
    and st: "simple cs b" and cmb: "combo b = segs" "comboSeparators b = seps" by blast
  show ?case
  proof (cases c)
    case (Element t)
    with snoc.prems have "cs = []" by (simp add: nothing_before_element)
    then show ?thesis using Element
      by (simp add: simple_def freshWith_def cssSelectorBuilder_def method_defs)
  next
    case (Id i)
    with snoc.prems have "cs = [] \<or> (\<exists>t. cs = [Element t])"
      by (simp add: only_elements_before_id)
    then show ?thesis using Id
      by (auto simp: simple_def freshWith_def cssSelectorBuilder_def method_defs Let_def)
  next
    case (Class x)
    with le have "3 \<notin> category ` set cs" by auto
    with st have "\<not> truthy (sel_attr (selectObj b))" by (simp add: simple_def)
    then show ?thesis using Class b st cmb
      by (auto simp: chain_snoc simple_def class_method_def truthy_def)
  next
    case (Attr x)
    with le have "4 \<notin> category ` set cs" by auto
    with st have "\<not> truthy (sel_pseudoClass (selectObj b))" by (simp add: simple_def)
    then show ?thesis using Attr b st cmb
      by (auto simp: chain_snoc simple_def attr_def truthy_def)
  next
    case (PseudoClass x)
    with le have "5 \<notin> category ` set cs" by auto
    with st have "\<not> truthy (sel_pseudoElement (selectObj b))" by (simp add: simple_def)
    then show ?thesis using PseudoClass b st cmb
      by (auto simp: chain_snoc simple_def pseudoClass_def truthy_def)
  next
    case (PseudoElement x)
    with snoc.prems have "\<forall>x\<in>set cs. category x \<noteq> 5"
      using validOrder_snoc(3)[of cs c] by simp
    then have "5 \<notin> category ` set cs" by auto
    with st have "\<not> truthy (sel_pseudoElement (selectObj b))" by (simp add: simple_def)
    then show ?thesis using PseudoElement b st cmb
      by (auto simp: chain_snoc simple_def pseudoElement_def truthy_def)
  qed
qed

lemma stringify_simple:
  "simple cs b \<Longrightarrow> combo b = [] \<Longrightarrow>
     stringify b
       = (concat (map fragment cs), cssSelectorBuilder\<lparr>comboSeparators := comboSeparators b\<rparr>)"
  by (cases b)
    (simp add: stringify_def genSelector_def cleanSelector_def simple_def Let_def
       cssSelectorBuilder_def emptySelectObj_def)

text \<open>
  Claim C1. For every chain of calls on the fresh builder that respects the order of the
  categories (element, id, classes, attributes, pseudo-classes, pseudo-element, each
  optional, element, id and pseudo-element at most once), no call throws and
  \<^verbatim>\<open>stringify()\<close> returns the fragments of the calls, each with its prefix, concatenated
  in call order; repeated class, attribute and pseudo-class calls all appear.
\<close>

theorem valid_chain_stringify:
  "validOrder cs \<Longrightarrow>
     fst (stringifyExpr (Chain cs) cssSelectorBuilder) = Inr (concat (map fragment cs))"
proof -
  assume "validOrder cs"
  then obtain b where "chain cs cssSelectorBuilder = Returned b" and "simple cs b"
    and "combo b = []"
    using valid_chain_from[of cs "[]" "[]"] by (auto simp: fresh_is_freshWith)
  then show ?thesis
    by (simp add: stringifyExpr_def stringify_simple)
qed

theorem valid_chain_stringify_witness:
  "validOrder [Element ''div'', Id ''main'', Class ''a'', Class ''b'', Attr ''x'',
               PseudoClass ''hover'', PseudoElement ''after'']
   \<and> fst (stringifyExpr
            (Chain [Element ''div'', Id ''main'', Class ''a'', Class ''b'', Attr ''x'',
                    PseudoClass ''hover'', PseudoElement ''after''])
            cssSelectorBuilder)
     = Inr ''div#main.a.b[x]:hover::after''"
proof -
  have v: "validOrder [Element ''div'', Id ''main'', Class ''a'', Class ''b'', Attr ''x'',
                       PseudoClass ''hover'', PseudoElement ''after'']"
    by (simp add: validOrder_def)
  show ?thesis using v valid_chain_stringify[OF v] by simp
qed

text \<open>After such a chain and its \<^verbatim>\<open>stringify()\<close> the object is as the module created it.\<close>

lemma valid_chain_resets:
  "validOrder cs \<Longrightarrow> snd (stringifyExpr (Chain cs) cssSelectorBuilder) = cssSelectorBuilder"
proof -
  assume "validOrder cs"
  then obtain b where "chain cs cssSelectorBuilder = Returned b" "simple cs b"
    "combo b = []" "comboSeparators b = []"
    using valid_chain_from[of cs "[]" "[]"] by (auto simp: fresh_is_freshWith)
  then show ?thesis
    by (simp add: stringifyExpr_def stringify_simple) (simp add: cssSelectorBuilder_def)
qed

subsection \<open>What the calls within one simple selector keep\<close>

lemma invoke_keeps:
  "invoke c b = Returned b' \<Longrightarrow> category c \<noteq> 0 \<Longrightarrow> keeps b b'"
  by (cases c) (auto simp: keeps_def method_defs underway_def Let_def split: if_splits)

lemma keeps_trans: "keeps b b1 \<Longrightarrow> keeps b1 b2 \<Longrightarrow> keeps b b2"
  by (simp add: keeps_def)

lemma chain_keeps:
  "chain cs b = Returned b' \<Longrightarrow> sameSelector cs \<Longrightarrow> keeps b b'"
proof (induction cs arbitrary: b)
  case Nil
  then show ?case by (simp add: keeps_def)
next
  case (Cons c cs)
  from Cons.prems(1) obtain b1 where c: "invoke c b = Returned b1"
    and cs: "chain cs b1 = Returned b'"
    by (auto split: result.splits)
  from Cons.prems(2) have "category c \<noteq> 0" and "sameSelector cs"
    by simp_all
  with c cs Cons.IH show ?case
    by (blast intro: keeps_trans invoke_keeps)
qed

lemma invoke_sets:
  assumes "invoke c b = Returned b1"
  shows "category c = 1 \<Longrightarrow> truthy (sel_id (selectObj b1))"
    and "category c = 3 \<Longrightarrow> truthy (sel_attr (selectObj b1))"
    and "category c = 4 \<Longrightarrow> truthy (sel_pseudoClass (selectObj b1))"
    and "category c = 5 \<Longrightarrow> truthy (sel_pseudoElement (selectObj b1))"
    and "2 \<le> category c \<Longrightarrow> underway b1"
  using assms
  by (cases c; auto simp: method_defs underway_def Let_def split: if_splits)+

text \<open>
  On a state that is \<open>underway\<close>, \<^verbatim>\<open>element\<close> closes the simple selector: its text
  goes to the end of \<^verbatim>\<open>combo\<close>, and the new tag starts the next one.
\<close>

lemma element_underway:
  "underway b \<Longrightarrow>
     element t b = Returned (b\<lparr>selectObj := emptySelectObj\<lparr>sel_tag := t, sel_seq := t\<rparr>,
                              combo := combo b @ [sel_seq (selectObj b)], firstMode := True\<rparr>)"
  by (simp add: underway_def method_defs Let_def)

lemma sameSelector_iff: "sameSelector cs \<longleftrightarrow> (\<forall>c\<in>set cs. category c \<noteq> 0)"
  by (induction cs) auto

subsection \<open>Order errors\<close>

text \<open>
  Claim C4, as the code has it. Within one simple selector, that is after a call \<open>c\<close>
  that returned and further calls \<open>cs\<close>, none of them \<^verbatim>\<open>element\<close>, that returned:
  \<^verbatim>\<open>class\<close> after an attribute, \<^verbatim>\<open>attr\<close> after a pseudo-class and \<^verbatim>\<open>pseudoClass\<close>
  after a pseudo-element raise the order error; \<^verbatim>\<open>id\<close> after a pseudo-element raises
  the order error when the selector has no id yet and the duplicate error when it has
  one; \<^verbatim>\<open>element\<close> after a pseudo-element raises nothing (it begins the next simple
  selector). Nothing is said of \<^verbatim>\<open>class\<close> and \<^verbatim>\<open>attr\<close> after a pseudo-element.
\<close>

theorem order_error_within_selector:
  assumes "invoke c b = Returned b1" and "chain cs b1 = Returned b2" and "sameSelector cs"
  shows "(category c = 3 \<longrightarrow> raised (class_method v b2) = Some OrderError)
       \<and> (category c = 4 \<longrightarrow> raised (attr v b2) = Some OrderError)
       \<and> (category c = 5 \<longrightarrow>
            raised (pseudoClass v b2) = Some OrderError
            \<and> raised (id_method v b2)
                = Some (if truthy (sel_id (selectObj b2)) then MoreThanOneError else OrderError)
            \<and> raised (element v b2) = None)"
proof -
  from assms(2,3) have k: "keeps b1 b2" by (rule chain_keeps)
  have "raised (class_method v b2) = Some OrderError" if "category c = 3"
    using invoke_sets(2)[OF assms(1) that] k by (simp add: keeps_def class_method_def)
  moreover have "raised (attr v b2) = Some OrderError" if "category c = 4"
    using invoke_sets(3)[OF assms(1) that] k by (simp add: keeps_def attr_def genError_def Let_def)
  moreover have "raised (pseudoClass v b2) = Some OrderError" if "category c = 5"
    using invoke_sets(4)[OF assms(1) that] k
    by (simp add: keeps_def pseudoClass_def genError_def Let_def)
  moreover have "raised (id_method v b2)
                = Some (if truthy (sel_id (selectObj b2)) then MoreThanOneError else OrderError)"
    if "category c = 5"
    using invoke_sets(4)[OF assms(1) that] k
    by (simp add: keeps_def id_method_def this_prevElem_def genError_def Let_def)
  moreover have "raised (element v b2) = None" if "category c = 5"
  proof -
    from that have "underway b1" using invoke_sets(5)[OF assms(1)] by simp
    with k have "underway b2" by (simp add: keeps_def)
    then show ?thesis by (simp add: element_underway)
  qed
  ultimately show ?thesis by blast
qed

theorem order_error_within_selector_witness:
  "(invoke (Attr ''href'') (after []) = Returned (after [Attr ''href''])
    \<and> chain [PseudoClass ''hover''] (after [Attr ''href''])
        = Returned (after [Attr ''href'', PseudoClass ''hover''])
    \<and> sameSelector [PseudoClass ''hover'']
    \<and> raised (class_method ''link'' (after [Attr ''href'', PseudoClass ''hover''])) = Some OrderError)
   \<and> (invoke (PseudoClass ''hover'') (after []) = Returned (after [PseudoClass ''hover''])
    \<and> chain [] (after [PseudoClass ''hover'']) = Returned (after [PseudoClass ''hover''])
    \<and> sameSelector []
    \<and> raised (attr ''title'' (after [PseudoClass ''hover''])) = Some OrderError)
   \<and> (invoke (PseudoElement ''after'') (after [Id ''main''])
        = Returned (after [Id ''main'', PseudoElement ''after''])
    \<and> chain [Class ''c''] (after [Id ''main'', PseudoElement ''after''])
        = Returned (after [Id ''main'', PseudoElement ''after'', Class ''c''])
    \<and> sameSelector [Class ''c'']
    \<and> raised (pseudoClass ''valid'' (after [Id ''main'', PseudoElement ''after'', Class ''c'']))
        = Some OrderError
    \<and> raised (id_method ''valid'' (after [Id ''main'', PseudoElement ''after'', Class ''c'']))
        = Some MoreThanOneError
    \<and> raised (element ''valid'' (after [Id ''main'', PseudoElement ''after'', Class ''c''])) = None)"
proof -
  have a1: "invoke (Attr ''href'') (after []) = Returned (after [Attr ''href''])"
    and a2: "chain [PseudoClass ''hover''] (after [Attr ''href''])
        = Returned (after [Attr ''href'', PseudoClass ''hover''])"
    and a3: "sameSelector [PseudoClass ''hover'']"
    by (simp_all add: eval_defs)
  have b1: "invoke (PseudoClass ''hover'') (after []) = Returned (after [PseudoClass ''hover''])"
    and b2: "chain [] (after [PseudoClass ''hover'']) = Returned (after [PseudoClass ''hover''])"
    and b3: "sameSelector []"
    by (simp_all add: eval_defs)
  have c1: "invoke (PseudoElement ''after'') (after [Id ''main''])
        = Returned (after [Id ''main'', PseudoElement ''after''])"
    and c2: "chain [Class ''c''] (after [Id ''main'', PseudoElement ''after''])
        = Returned (after [Id ''main'', PseudoElement ''after'', Class ''c''])"
    and c3: "sameSelector [Class ''c'']"
    and c4: "truthy (sel_id (selectObj (after [Id ''main'', PseudoElement ''after'', Class ''c''])))"
    by (simp_all add: eval_defs)
  show ?thesis
    using a1 a2 a3 b1 b2 b3 c1 c2 c3 c4
      order_error_within_selector[OF a1 a2 a3, of "''link''"]
      order_error_within_selector[OF b1 b2 b3, of "''title''"]
      order_error_within_selector[OF c1 c2 c3, of "''valid''"]
    by simp
qed

text \<open>
  Claim C4 as stated fails: \<^verbatim>\<open>builder.pseudoElement('after').element('div')\<close> raises
  nothing.
\<close>

theorem element_after_pseudoElement_counterexample:
  "raised (chain [PseudoElement ''after'', Element ''div''] cssSelectorBuilder) = None"
  by (simp add: eval_defs)

text \<open>
  Claim C5 at \<^verbatim>\<open>builder.attr('href').id('main')\<close>: the attribute was added, and \<^verbatim>\<open>id\<close>
  returns; \<^verbatim>\<open>stringify()\<close> then gives the id after the attribute. With an element in
  front, the same calls raise the order error.
\<close>

theorem id_after_attr_returns:
  "raised (chain [Attr ''href'', Id ''main''] cssSelectorBuilder) = None
   \<and> fst (stringifyExpr (Chain [Attr ''href'', Id ''main'']) cssSelectorBuilder)
       = Inr ''[href]#main''
   \<and> raised (chain [Element ''a'', Attr ''href'', Id ''main''] cssSelectorBuilder)
       = Some OrderError"
  by (simp add: stringify_defs method_defs)

text \<open>
  \<^verbatim>\<open>element\<close> that returns leaves its tag as the whole text and \<^verbatim>\<open>firstId\<close> unset;
  an \<^verbatim>\<open>id\<close> that returns on a state with text and without \<^verbatim>\<open>firstId\<close> leaves the
  state \<open>underway\<close>.
\<close>

lemma element_returns:
  "element t0 b = Returned b' \<Longrightarrow> sel_seq (selectObj b') = t0 \<and> \<not> firstId b'"
  by (auto simp: method_defs Let_def split: if_splits)

lemma id_on_text_underway:
  "truthy (sel_seq (selectObj b)) \<Longrightarrow> \<not> firstId b \<Longrightarrow> id_method i b = Returned b1
     \<Longrightarrow> underway b1"
  by (auto simp: underway_def method_defs Let_def split: if_splits)

lemma element_after_empty_tag_and_id:
  "raised (chain [Element [], Id ''x'', Element ''y''] cssSelectorBuilder) = Some OrderError"
  by (simp add: eval_defs)

text \<open>
  Claim C6, as the code has it. \<^verbatim>\<open>element\<close> raises the order error when it is called
  directly after an \<^verbatim>\<open>id\<close> call that was made while the simple selector had no text
  yet (the id is its first fragment, or follows an empty tag). After \<^verbatim>\<open>class\<close>,
  \<^verbatim>\<open>attr\<close>, \<^verbatim>\<open>pseudoClass\<close> or \<^verbatim>\<open>pseudoElement\<close> (and further calls within the
  selector), and directly after an \<^verbatim>\<open>id\<close> that directly followed an \<^verbatim>\<open>element\<close> call
  with a non-empty tag, \<^verbatim>\<open>element\<close> raises nothing: it appends the text of the simple
  selector to the composite segment list and begins the next simple selector with its
  tag.
\<close>

theorem element_after_fragment:
  "(\<not> truthy (sel_seq (selectObj b)) \<and> id_method i b = Returned b1
      \<longrightarrow> raised (element t b1) = Some OrderError)
   \<and> (2 \<le> category c \<and> invoke c b' = Returned b1' \<and> chain cs b1' = Returned b2
        \<and> sameSelector cs
      \<longrightarrow> raised (element t b2) = None
          \<and> combo (stateOf (element t b2)) = combo b2 @ [sel_seq (selectObj b2)]
          \<and> sel_seq (selectObj (stateOf (element t b2))) = t)
   \<and> (truthy t0 \<and> element t0 b'' = Returned b0'' \<and> id_method i b0'' = Returned b1''
      \<longrightarrow> raised (element t b1'') = None
          \<and> combo (stateOf (element t b1'')) = combo b1'' @ [sel_seq (selectObj b1'')]
          \<and> sel_seq (selectObj (stateOf (element t b1''))) = t)"
proof (intro conjI impI)
  assume "\<not> truthy (sel_seq (selectObj b)) \<and> id_method i b = Returned b1"
  then show "raised (element t b1) = Some OrderError"
    by (auto simp: method_defs Let_def split: if_splits)
next
  assume a: "2 \<le> category c \<and> invoke c b' = Returned b1' \<and> chain cs b1' = Returned b2
    \<and> sameSelector cs"
  then have "underway b1'" using invoke_sets(5) by blast
  moreover from a have "keeps b1' b2" using chain_keeps by blast
  ultimately have u: "underway b2" by (simp add: keeps_def)
  show "raised (element t b2) = None"
    and "combo (stateOf (element t b2)) = combo b2 @ [sel_seq (selectObj b2)]"
    and "sel_seq (selectObj (stateOf (element t b2))) = t"
    by (simp_all add: element_underway[OF u])
next
  assume a: "truthy t0 \<and> element t0 b'' = Returned b0'' \<and> id_method i b0'' = Returned b1''"
  then have "truthy (sel_seq (selectObj b0''))" and "\<not> firstId b0''"
    using element_returns[of t0 b'' b0''] by simp_all
  with a have u: "underway b1''" by (blast intro: id_on_text_underway)
  show "raised (element t b1'') = None"
    and "combo (stateOf (element t b1'')) = combo b1'' @ [sel_seq (selectObj b1'')]"
    and "sel_seq (selectObj (stateOf (element t b1''))) = t"
    by (simp_all add: element_underway[OF u])
qed

theorem element_after_fragment_witness:
  "(\<not> truthy (sel_seq (selectObj (after [])))
    \<and> id_method ''id'' (after []) = Returned (after [Id ''id''])
    \<and> raised (element ''div'' (after [Id ''id''])) = Some OrderError)
   \<and> (2 \<le> category (Class ''draggable'')
    \<and> invoke (Class ''draggable'') (after [Element ''p''])
        = Returned (after [Element ''p'', Class ''draggable''])
    \<and> chain [Attr ''x''] (after [Element ''p'', Class ''draggable''])
        = Returned (after [Element ''p'', Class ''draggable'', Attr ''x''])
    \<and> sameSelector [Attr ''x'']
    \<and> raised (element ''div'' (after [Element ''p'', Class ''draggable'', Attr ''x''])) = None
    \<and> combo (stateOf (element ''div'' (after [Element ''p'', Class ''draggable'', Attr ''x''])))
        = [''p.draggable[x]'']
    \<and> sel_seq (selectObj (stateOf
          (element ''div'' (after [Element ''p'', Class ''draggable'', Attr ''x''])))) = ''div'')
   \<and> (truthy ''p''
    \<and> element ''p'' (after []) = Returned (after [Element ''p''])
    \<and> id_method ''id'' (after [Element ''p'']) = Returned (after [Element ''p'', Id ''id''])
    \<and> raised (element ''div'' (after [Element ''p'', Id ''id''])) = None
    \<and> combo (stateOf (element ''div'' (after [Element ''p'', Id ''id'']))) = [''p#id''])"
proof -
  have a: "\<not> truthy (sel_seq (selectObj (after [])))
      \<and> id_method ''id'' (after []) = Returned (after [Id ''id''])"
    by (simp add: eval_defs)
  have b: "2 \<le> category (Class ''draggable'')
      \<and> invoke (Class ''draggable'') (after [Element ''p''])
          = Returned (after [Element ''p'', Class ''draggable''])
      \<and> chain [Attr ''x''] (after [Element ''p'', Class ''draggable''])
          = Returned (after [Element ''p'', Class ''draggable'', Attr ''x''])
      \<and> sameSelector [Attr ''x'']"
    by (simp add: eval_defs)
  have c: "truthy ''p''
      \<and> element ''p'' (after []) = Returned (after [Element ''p''])
      \<and> id_method ''id'' (after [Element ''p'']) = Returned (after [Element ''p'', Id ''id''])"
    by (simp add: eval_defs)
  have d: "combo (after [Element ''p'', Class ''draggable'', Attr ''x'']) = []"
    "sel_seq (selectObj (after [Element ''p'', Class ''draggable'', Attr ''x''])) = ''p.draggable[x]''"
    "combo (after [Element ''p'', Id ''id'']) = []"
    "sel_seq (selectObj (after [Element ''p'', Id ''id''])) = ''p#id''"
    by (simp_all add: eval_defs)
  show ?thesis
    using a b c d
      element_after_fragment[where b = "after []" and i = "''id''" and ?b1.0 = "after [Id ''id'']"
        and t = "''div''" and c = "Class ''draggable''" and b' = "after [Element ''p'']"
        and b1' = "after [Element ''p'', Class ''draggable'']" and cs = "[Attr ''x'']"
        and ?b2.0 = "after [Element ''p'', Class ''draggable'', Attr ''x'']"
        and ?t0.0 = "''p''" and b'' = "after []" and b0'' = "after [Element ''p'']"
        and b1'' = "after [Element ''p'', Id ''id'']"]
    by simp
qed

text \<open>
  Claim C6 as stated fails: \<^verbatim>\<open>builder.class('draggable').element('div')\<close> raises
  nothing.
\<close>

theorem element_after_class_counterexample:
  "raised (chain [Class ''draggable'', Element ''div''] cssSelectorBuilder) = None"
  by (simp add: eval_defs)

subsection \<open>Duplicate errors\<close>




subsection \<open>The state after an error and after stringify\<close>

text \<open>\<^verbatim>\<open>genError\<close> empties \<^verbatim>\<open>selectObj\<close> and resets both flags; the composite lists stay.\<close>

lemma genError_clears:
  "genError e b = Thrown e (freshWith (combo b) (comboSeparators b))"
  by (cases b) (simp add: genError_def cleanSelector_def freshWith_def cssSelectorBuilder_def
      emptySelectObj_def Let_def)

lemma element_error_keeps_combo:
  "chain [Id ''x'', Element ''div''] cssSelectorBuilder
     = Thrown OrderError (freshWith [''#x''] [])"
  by (simp add: freshWith_def eval_defs)

text \<open>
  Claim C8 at \<^verbatim>\<open>builder.attr('href').class('link')\<close>: \<^verbatim>\<open>class\<close> raises the order
  error and the attribute stays in the object; \<^verbatim>\<open>builder.element('div').stringify()\<close>
  after it returns the attribute, where a fresh builder returns the tag. The order error
  of \<^verbatim>\<open>attr\<close> does leave the object as the module created it.
\<close>

theorem class_error_keeps_state:
  "raised (chain [Attr ''href'', Class ''link''] cssSelectorBuilder) = Some OrderError
   \<and> sel_seq (selectObj (after [Attr ''href'', Class ''link''])) = ''[href]''
   \<and> fst (stringifyExpr (Chain [Element ''div'']) (after [Attr ''href'', Class ''link'']))
       = Inr ''[href]''
   \<and> fst (stringifyExpr (Chain [Element ''div'']) cssSelectorBuilder) = Inr ''div''
   \<and> chain [PseudoClass ''hover'', Attr ''title''] cssSelectorBuilder
       = Thrown OrderError cssSelectorBuilder"
  by (simp add: stringify_defs eval_defs)

text \<open>
  Claim C9 at \<^verbatim>\<open>builder.element('a').class('c').element('b').stringify()\<close>: the call
  returns \<^verbatim>\<open>'a.c'\<close> and leaves the tag \<^verbatim>\<open>'b'\<close> in the object; the next chain,
  \<^verbatim>\<open>builder.element('x').stringify()\<close>, raises the duplicate error, where a fresh
  builder returns \<^verbatim>\<open>'x'\<close>.
\<close>

theorem stringify_leaves_fragments:
  "stringifyExpr (Chain [Element ''a'', Class ''c'', Element ''b'']) cssSelectorBuilder
     = (Inr ''a.c'', after [Element ''b''])
   \<and> fst (stringifyExpr (Chain [Element ''x''])
            (snd (stringifyExpr (Chain [Element ''a'', Class ''c'', Element ''b''])
                    cssSelectorBuilder)))
       = Inl MoreThanOneError
   \<and> fst (stringifyExpr (Chain [Element ''x'']) cssSelectorBuilder) = Inr ''x''"
  by (simp add: stringify_defs eval_defs)

subsection \<open>combine\<close>

lemma finished_cases:
  "finished cs \<Longrightarrow>
     (\<exists>x\<in>set cs. 2 \<le> category x) \<or> (\<exists>t i. truthy t \<and> cs = [Element t, Id i])"
  by (induction cs rule: finished.induct) (auto simp: list_ex_iff)

lemma underway_after_chain:
  assumes v: "validOrder a" and f: "finished a"
    and r: "chain a (freshWith segs seps) = Returned b"
  shows "underway b"
  using finished_cases[OF f]
proof
  assume "\<exists>x\<in>set a. 2 \<le> category x"
  then obtain x where x: "x \<in> set a" "2 \<le> category x" by blast
  then obtain pre post where a: "a = pre @ x # post" by (meson split_list)
  from v have "sorted (map category a)" by (simp add: validOrder_def)
  with a x have "\<forall>y\<in>set post. 2 \<le> category y"
    by (auto simp: sorted_append)
  then have same: "sameSelector post" by (auto simp: sameSelector_iff)
  from r a obtain b0 b1 where "invoke x b0 = Returned b1" and post: "chain post b1 = Returned b"
    by (auto simp: chain_append split: result.splits)
  with x have "underway b1" by (simp add: invoke_sets(5))
  with chain_keeps[OF post same] show ?thesis by (simp add: keeps_def)
next
  assume "\<exists>t i. truthy t \<and> a = [Element t, Id i]"
  with r show ?thesis
    by (auto simp: freshWith_def cssSelectorBuilder_def method_defs underway_def Let_def
             split: if_splits)
qed

text \<open>
  Where \<^verbatim>\<open>combine\<close> of two chains does give the two texts around the combinator: both
  chains are in the order of the categories, the left one is \<open>finished\<close>, the right
  one begins with \<^verbatim>\<open>element\<close> and has a non-empty text.
\<close>

lemma combine_two_chains:
  assumes va: "validOrder a" and fa: "finished a"
    and vb: "validOrder (Element t # bs)"
    and ne: "truthy (concat (map fragment (Element t # bs)))"
  shows "fst (stringifyExpr (Combine (Chain a) (JStr c) (Chain (Element t # bs)))
               cssSelectorBuilder)
         = Inr (concat (map fragment a) @ '' '' @ c @ '' ''
                @ concat (map fragment (Element t # bs)))"
proof -
  let ?ta = "concat (map fragment a)" and ?tb = "concat (map fragment (Element t # bs))"
  from valid_chain_from[OF va, of "[]" "[]"] obtain b
    where b: "chain a cssSelectorBuilder = Returned b" and sb: "simple a b"
      and cb: "combo b = []" "comboSeparators b = []"
    by (auto simp: fresh_is_freshWith)
  have ub: "underway b"
    using underway_after_chain[OF va fa, of "[]" "[]" b] b by (simp add: fresh_is_freshWith)
  have step: "element t b = element t (freshWith [?ta] [])"
    using ub sb cb
    by (cases b)
      (simp add: underway_def simple_def freshWith_def cssSelectorBuilder_def method_defs Let_def)
  from valid_chain_from[OF vb, of "[?ta]" "[]"] obtain b2
    where b2: "chain (Element t # bs) (freshWith [?ta] []) = Returned b2"
      and sb2: "simple (Element t # bs) b2"
      and cb2: "combo b2 = [?ta]" "comboSeparators b2 = []"
    by blast
  from b2 step have "chain (Element t # bs) b = Returned b2" by simp
  with b have bld:
    "build (Combine (Chain a) (JStr c) (Chain (Element t # bs))) cssSelectorBuilder
      = Returned (combine [JObject, JStr c, JObject] b2)"
    by simp
  have "fst (stringify (combine [JObject, JStr c, JObject] b2)) = ?ta @ '' '' @ c @ '' '' @ ?tb"
    using sb2 cb2 ne
    by (simp add: simple_def combine_def stringify_def flatMapCombo_def at_index_def
          genSelector_def writeCombo_def cleanSelector_def truthy_def Let_def)
  with bld show ?thesis by (simp add: stringifyExpr_def)
qed

text \<open>
  Claim C2 at \<^verbatim>\<open>builder.combine(builder.element('div'), '+', builder.element('span'))\<close>:
  the second argument's \<^verbatim>\<open>element\<close> call raises the duplicate error, where the two
  chains alone give \<^verbatim>\<open>'div'\<close> and \<^verbatim>\<open>'span'\<close>.
\<close>

theorem combine_bare_elements_throws:
  "fst (stringifyExpr (Combine (Chain [Element ''div'']) (JStr ''+'') (Chain [Element ''span'']))
          cssSelectorBuilder) = Inl MoreThanOneError
   \<and> fst (stringifyExpr (Chain [Element ''div'']) cssSelectorBuilder) = Inr ''div''
   \<and> fst (stringifyExpr (Chain [Element ''span'']) cssSelectorBuilder) = Inr ''span''"
  by (simp add: stringify_defs method_defs)

text \<open>
  Claim C3 at the left-nested
  \<^verbatim>\<open>combine(combine(element('a').id('x'), '+', element('b').id('y')), '~', element('c').id('z'))\<close>:
  \<^verbatim>\<open>stringify()\<close> puts \<^verbatim>\<open>~\<close> between the first two segments and \<^verbatim>\<open>+\<close> between the
  last two. The right-nested composition keeps each combinator with its pair.
\<close>

theorem left_nested_combine_swaps:
  "fst (stringifyExpr
          (Combine
             (Combine (Chain [Element ''a'', Id ''x'']) (JStr ''+'') (Chain [Element ''b'', Id ''y'']))
             (JStr ''~'') (Chain [Element ''c'', Id ''z'']))
          cssSelectorBuilder) = Inr ''a#x ~ b#y + c#z''
   \<and> fst (stringifyExpr
          (Combine (Chain [Element ''a'', Id ''x'']) (JStr ''+'')
             (Combine (Chain [Element ''b'', Id ''y'']) (JStr ''~'') (Chain [Element ''c'', Id ''z''])))
          cssSelectorBuilder) = Inr ''a#x + b#y ~ c#z''"
  by (simp add: stringify_defs method_defs)

text \<open>
  Claim C10. From any state of the builder, \<^verbatim>\<open>combine(l1, c, r1)\<close> and
  \<^verbatim>\<open>combine(l2, c, r2)\<close> leave the builder in the same state, and \<^verbatim>\<open>stringify()\<close>
  after them returns the same string and leaves the same state: the first and third
  argument are never read.
\<close>

theorem combine_ignores_operands:
  "combine [l1, c, r1] b = combine [l2, c, r2] b
   \<and> stringify (combine [l1, c, r1] b) = stringify (combine [l2, c, r2] b)"
  by (simp add: combine_def at_index_def)

end
